theory Spec2Isabelle
  imports Main "HOL-Library.Word"
begin

unbundle bit_operations_syntax

section \<open>PGP attestations: pkg/kritis/cryptolib/pgp.go\<close>

text \<open>
  The file is a thin layer over the OpenPGP packages \<open>openpgp\<close> and \<open>armor\<close>. Its three
  functions \<open>verifyPgp\<close>, \<open>NewPgpSigner\<close> and \<open>CreateAttestation\<close> are embedded below as
  they are written. The package functions they call are not part of the file: each is a
  parameter of the embedding, so that every theorem about the three functions holds for
  whatever those packages compute. A second part gives the parameters the value the
  spec describes, for the claims that speak about signing and verifying together.
\<close>

subsection \<open>Data\<close>

type_synonym byte = "8 word"
type_synonym bytes = "byte list"

text \<open>
  Go errors. \<open>errors.Wrap(err, msg)\<close> keeps the cause and adds a message;
  \<open>fmt.Errorf(msg)\<close> is an error of its own. The errors of the OpenPGP packages
  are of a type \<open>'e\<close> the embedding does not look into.
\<close>

datatype 'e error = Wrap 'e string | Errorf string

text \<open>
  Modelled from the spec: the key type. \<open>openpgp.Entity\<close> is declared outside the
  file; the field path the source reads, \<open>PrimaryKey.Fingerprint\<close>, keeps its names, and
  the public component, the optional private component and the signing-capability flag
  are those of the spec's Key (section 3).
\<close>

record PublicKey =
  Fingerprint :: bytes
  PublicComponent :: bytes

record Entity =
  PrimaryKey :: PublicKey
  PrivateKey :: "bytes option"
  CanSign :: bool

record pgpSigner =
  privateKey :: Entity
  publicKeyID :: string

record Attestation =
  PublicKeyID :: string
  Signature :: bytes

subsection \<open>Formatting verbs of \<open>fmt\<close>\<close>

text \<open>\<open>%X\<close> on a byte array: two upper-case hexadecimal digits for each byte.\<close>

definition hexDigit :: "nat \<Rightarrow> char" where
  "hexDigit n = ''0123456789ABCDEF'' ! n"

definition hexByte :: "byte \<Rightarrow> string" where
  "hexByte b = [hexDigit (unat b div 16), hexDigit (unat b mod 16)]"

definition sprintf_X :: "bytes \<Rightarrow> string" where
  "sprintf_X bs = concat (map hexByte bs)"

text \<open>\<open>%d\<close> on a length, which is never negative: its decimal digits.\<close>

definition decDigit :: "nat \<Rightarrow> char" where
  "decDigit n = ''0123456789'' ! n"

function sprintf_d :: "nat \<Rightarrow> string" where
  "sprintf_d n = (if n < 10 then [decDigit n] else sprintf_d (n div 10) @ [decDigit (n mod 10)])"
  by pat_completeness auto
termination
  by (relation "measure id") auto

declare sprintf_d.simps [simp del]

text \<open>Reading the two notations back, to say what the digits denote.\<close>

definition hexValue :: "char \<Rightarrow> nat" where
  "hexValue c = (if of_char c < (65::nat) then of_char c - 48 else of_char c - 55)"

fun parseHex :: "string \<Rightarrow> bytes" where
  "parseHex (h # l # cs) = word_of_nat (16 * hexValue h + hexValue l) # parseHex cs"
| "parseHex _ = []"

definition parseDec :: "string \<Rightarrow> nat" where
  "parseDec cs = foldl (\<lambda>a c. 10 * a + (of_char c - 48)) 0 cs"

definition upperHexChars :: "char set" where
  "upperHexChars = set ''0123456789ABCDEF''"

subsection \<open>The OpenPGP packages as parameters\<close>

text \<open>
  Modelled from the spec: the types \<open>armor.Block\<close> and \<open>openpgp.MessageDetails\<close> are
  declared outside the file. Only the fields the source reads are kept. \<open>'r\<close> is the
  type of readers, \<open>'s\<close> the type of signature packets.
\<close>

record 'r Block =
  Type :: string
  Body :: 'r

record ('e, 'r, 's) MessageDetails =
  md_UnverifiedBody :: 'r
  md_SignatureError :: "'e option"
  md_Signature :: "'s option"

text \<open>
  The calls of \<open>verifyPgp\<close>. Reading \<open>UnverifiedBody\<close> to its end is what sets the
  fields \<open>SignatureError\<close> and \<open>Signature\<close> of the message details, so \<open>ReadAll\<close>
  takes the details and returns them updated, next to the Go result \<open>(payload, err)\<close>.
\<close>

record ('e, 'r, 's) openpgp_read =
  ReadArmoredKeyRing :: "bytes \<Rightarrow> 'e + Entity list"
  armor_Decode :: "bytes \<Rightarrow> 'e + 'r Block"
  ReadMessage :: "'r \<Rightarrow> Entity list \<Rightarrow> 'e + ('e, 'r, 's) MessageDetails"
  ReadAll :: "('e, 'r, 's) MessageDetails \<Rightarrow> (bytes \<times> 'e option) \<times> ('e, 'r, 's) MessageDetails"

text \<open>
  The calls of \<open>CreateAttestation\<close>. \<open>'a\<close> is the state of the armor writer together
  with the buffer under it, \<open>'w\<close> the state of the signature writer together with the
  armor writer under it. Closing the signature writer returns its error and leaves the
  armor writer; closing the armor writer returns its error and leaves the buffer.
\<close>

record ('e, 'a, 'w) openpgp_write =
  armor_Encode :: "string \<Rightarrow> 'e + 'a"
  Sign :: "'a \<Rightarrow> Entity \<Rightarrow> 'e + 'w"
  Write :: "'w \<Rightarrow> bytes \<Rightarrow> (nat \<times> 'e option) \<times> 'w"
  Close_signatureWriter :: "'w \<Rightarrow> 'e option \<times> 'a"
  Close_armorWriter :: "'a \<Rightarrow> 'e option \<times> bytes"

text \<open>
  Modelled from the spec: the constant \<open>openpgp.SignatureType\<close>, the block type of the
  armor header \<open>-----BEGIN PGP SIGNATURE-----\<close> (section 6).
\<close>

definition SignatureType :: string where
  "SignatureType = ''PGP SIGNATURE''"

subsection \<open>verifyPgp\<close>

text \<open>The Go result \<open>([]byte, error)\<close> is a pair of options, \<open>None\<close> for \<open>nil\<close>.\<close>

definition verifyPgp ::
  "('e, 'r, 's) openpgp_read \<Rightarrow> bytes \<Rightarrow> bytes \<Rightarrow> bytes option \<times> 'e error option" where
  "verifyPgp L signature publicKey =
     (case ReadArmoredKeyRing L publicKey of
        Inl err \<Rightarrow> (None, Some (Wrap err ''error reading armored key ring''))
      | Inr keyring \<Rightarrow>
     (case armor_Decode L signature of
        Inl err \<Rightarrow> (None, Some (Wrap err ''error decoding armored signature''))
      | Inr armorBlock \<Rightarrow>
     (case ReadMessage L (Body armorBlock) keyring of
        Inl err \<Rightarrow> (None, Some (Wrap err ''error reading armor signature''))
      | Inr messageDetails \<Rightarrow>
     (case ReadAll L messageDetails of
        ((payload, Some err), _) \<Rightarrow> (None, Some (Wrap err ''error reading message contents''))
      | ((payload, None), messageDetails') \<Rightarrow>
     (case md_SignatureError messageDetails' of
        Some serr \<Rightarrow> (None, Some (Wrap serr ''failed to validate: signature error''))
      | None \<Rightarrow>
          if md_Signature messageDetails' = None
          then (None, Some (Errorf ''failed to validate: signature missing''))
          else (Some payload, None))))))"

subsection \<open>NewPgpSigner\<close>

text \<open>The Go result \<open>(Signer, error)\<close> is a pair of options, \<open>None\<close> for \<open>nil\<close>.\<close>

definition NewPgpSigner ::
  "('e, 'r, 's) openpgp_read \<Rightarrow> bytes \<Rightarrow> pgpSigner option \<times> 'e error option" where
  "NewPgpSigner L privateKeyBytes =
     (case ReadArmoredKeyRing L privateKeyBytes of
        Inl err \<Rightarrow> (None, Some (Wrap err ''error reading armored private key''))
      | Inr keyring \<Rightarrow>
          if length keyring \<noteq> 1
          then (None, Some (Errorf (''expected 1 key in keyring, got '' @ sprintf_d (length keyring))))
          else let key = keyring ! 0
               in (Some \<lparr>privateKey = key,
                         publicKeyID = sprintf_X (Fingerprint (PrimaryKey key))\<rparr>, None))"

subsection \<open>CreateAttestation\<close>

text \<open>
  The results of the two \<open>Close\<close> calls are dropped, as in the source, which calls both
  as statements.
\<close>

definition CreateAttestation ::
  "('e, 'a, 'w) openpgp_write \<Rightarrow> pgpSigner \<Rightarrow> bytes \<Rightarrow> Attestation option \<times> 'e error option" where
  "CreateAttestation L s payload =
     (case armor_Encode L SignatureType of
        Inl err \<Rightarrow> (None, Some (Wrap err ''error creating armor buffer''))
      | Inr armorWriter \<Rightarrow>
     (case Sign L armorWriter (privateKey s) of
        Inl err \<Rightarrow> (None, Some (Wrap err ''error signing payload''))
      | Inr signatureWriter \<Rightarrow>
     (case Write L signatureWriter payload of
        ((n, Some err), _) \<Rightarrow> (None, Some (Wrap err ''error writing payload to armor writer''))
      | ((n, None), signatureWriter') \<Rightarrow>
          let armorWriter' = snd (Close_signatureWriter L signatureWriter');
              armoredSignature = snd (Close_armorWriter L armorWriter')
          in (Some \<lparr>PublicKeyID = publicKeyID s, Signature = armoredSignature\<rparr>, None))))"

subsection \<open>Stand-ins for the packages\<close>

text \<open>
  Concrete values for the parameters, on which the functions can be run. The reading
  stand-in hands the armored text through as the payload and, once the body has been
  read, reports the signature error and the signature packet it was built with.
\<close>

definition readerStub ::
  "(string + Entity list) \<Rightarrow> string option \<Rightarrow> bytes option \<Rightarrow> (string, bytes, bytes) openpgp_read" where
  "readerStub ring sigErr sig =
     \<lparr>ReadArmoredKeyRing = (\<lambda>armored. ring),
      armor_Decode = (\<lambda>armored. Inr \<lparr>Type = SignatureType, Body = armored\<rparr>),
      ReadMessage = (\<lambda>body keyring.
        Inr \<lparr>md_UnverifiedBody = body, md_SignatureError = None, md_Signature = None\<rparr>),
      ReadAll = (\<lambda>md.
        ((md_UnverifiedBody md, None),
         md\<lparr>md_SignatureError := sigErr, md_Signature := sig\<rparr>))\<rparr>"

text \<open>
  The writing stand-in keeps the bytes written so far as the state of both writers.
  \<open>Sign\<close> refuses a key without private component; closing the signature writer
  returns the error it was built with and writes nothing.
\<close>

definition writerStub :: "string option \<Rightarrow> (string, bytes, bytes) openpgp_write" where
  "writerStub closeErr =
     \<lparr>armor_Encode = (\<lambda>blockType. Inr []),
      Sign = (\<lambda>armorWriter key.
        if PrivateKey key = None then Inl ''signing key has no private key''
        else Inr armorWriter),
      Write = (\<lambda>w payload. ((length payload, None), w @ payload)),
      Close_signatureWriter = (\<lambda>w. (closeErr, w)),
      Close_armorWriter = (\<lambda>a. (None, a))\<rparr>"

definition publicOnlyKey :: Entity where
  "publicOnlyKey = \<lparr>PrimaryKey = \<lparr>Fingerprint = [0xAA, 0xBB, 0xCC, 0xDD],
                                     PublicComponent = [1, 2, 3]\<rparr>,
                     PrivateKey = None, CanSign = False\<rparr>"

definition signingKey :: Entity where
  "signingKey = \<lparr>PrimaryKey = \<lparr>Fingerprint = [0xAA, 0xBB, 0xCC, 0xDD],
                                  PublicComponent = [1, 2, 3]\<rparr>,
                  PrivateKey = Some [1, 2, 3], CanSign = True\<rparr>"

definition helloWorld :: bytes where
  "helloWorld = map of_char ''hello world''"

section \<open>The OpenPGP packages after the spec\<close>

text \<open>
  The packages behind \<open>verifyPgp\<close> and \<open>CreateAttestation\<close> are not in the file. The
  spec describes what they do (sections 3, 4, 6 and 7). This section writes that
  description down as one more value for the parameters above, so that the claims about
  signing and verifying together can be stated. What the spec leaves open (the digest,
  the signing algorithm of a key, the byte layout of packets and of keys) stays a
  parameter.
\<close>

subsection \<open>Error kinds\<close>

text \<open>
  Modelled from the spec: the error taxonomy of section 7, as the type of the errors the
  packages return.
\<close>

datatype errorKind =
    ConfigurationError
  | KeyParseError
  | ArmorFormatError
  | KeyNotFoundError
  | SignatureMismatchError
  | MissingSignatureError
  | SigningError
  | IOError

subsection \<open>ArmorCodec\<close>

text \<open>Armor is text; the source handles it as bytes.\<close>

definition byteOfChar :: "char \<Rightarrow> byte" where
  "byteOfChar c = word_of_nat (of_char c)"

definition charOfByte :: "byte \<Rightarrow> char" where
  "charOfByte b = char_of (unat b)"

text \<open>
  Modelled from the spec: the radix-64 body of section 4.2, which the armor packages
  implement outside the file. The alphabet is \<open>A-Z a-z 0-9 + /\<close>, three bytes make four
  characters, and a last group of one or two bytes is padded with \<open>=\<close>.
\<close>

definition b64char :: "nat \<Rightarrow> char" where
  "b64char n =
     (if n < 26 then char_of (65 + n)
      else if n < 52 then char_of (71 + n)
      else if n < 62 then char_of (n - 4)
      else if n = 62 then CHR ''+'' else CHR ''/'')"

definition b64val :: "char \<Rightarrow> nat option" where
  "b64val c =
     (let n = of_char c :: nat
      in if 65 \<le> n \<and> n \<le> 90 then Some (n - 65)
         else if 97 \<le> n \<and> n \<le> 122 then Some (n - 71)
         else if 48 \<le> n \<and> n \<le> 57 then Some (n + 4)
         else if c = CHR ''+'' then Some 62
         else if c = CHR ''/'' then Some 63
         else None)"

definition quad :: "nat \<Rightarrow> string" where
  "quad n = [b64char (n div 262144), b64char (n div 4096 mod 64),
             b64char (n div 64 mod 64), b64char (n mod 64)]"

fun unquad :: "char \<Rightarrow> char \<Rightarrow> char \<Rightarrow> char \<Rightarrow> nat option" where
  "unquad w x y z =
     (case (b64val w, b64val x, b64val y, b64val z) of
        (Some p, Some q, Some r, Some s) \<Rightarrow> Some (((p * 64 + q) * 64 + r) * 64 + s)
      | _ \<Rightarrow> None)"

fun b64enc :: "bytes \<Rightarrow> string" where
  "b64enc [] = []"
| "b64enc [a] = take 2 (quad (unat a * 65536)) @ ''==''"
| "b64enc [a, b] = take 3 (quad (unat a * 65536 + unat b * 256)) @ ''=''"
| "b64enc (a # b # c # rest) = quad (unat a * 65536 + unat b * 256 + unat c) @ b64enc rest"

fun b64dec :: "string \<Rightarrow> bytes option" where
  "b64dec [] = Some []"
| "b64dec (w # x # y # z # rest) =
     (if y = CHR ''='' \<and> z = CHR ''='' \<and> rest = [] then
        (case unquad w x CHR ''A'' CHR ''A'' of
           Some n \<Rightarrow> if n mod 65536 = 0 then Some [word_of_nat (n div 65536)] else None
         | None \<Rightarrow> None)
      else if z = CHR ''='' \<and> rest = [] then
        (case unquad w x y CHR ''A'' of
           Some n \<Rightarrow>
             if n mod 256 = 0
             then Some [word_of_nat (n div 65536), word_of_nat (n div 256 mod 256)]
             else None
         | None \<Rightarrow> None)
      else
        (case (unquad w x y z, b64dec rest) of
           (Some n, Some bs) \<Rightarrow>
             Some (word_of_nat (n div 65536) # word_of_nat (n div 256 mod 256)
                   # word_of_nat (n mod 256) # bs)
         | _ \<Rightarrow> None))"
| "b64dec _ = None"

text \<open>
  Modelled from the spec: the CRC24 checksum of the armor body. The spec names the
  checksum without its parameters; the initial value \<open>0xB704CE\<close> and the generator
  \<open>0x1864CFB\<close> are those of the OpenPGP message format.
\<close>

definition crc24_shift :: "32 word \<Rightarrow> 32 word" where
  "crc24_shift crc =
     (let crc' = push_bit 1 crc
      in if crc' AND 0x1000000 \<noteq> 0 then crc' XOR 0x1864CFB else crc')"

definition crc24_octet :: "32 word \<Rightarrow> byte \<Rightarrow> 32 word" where
  "crc24_octet crc b = (crc24_shift ^^ 8) (crc XOR push_bit 16 (ucast b))"

definition crc24 :: "bytes \<Rightarrow> 32 word" where
  "crc24 bs = foldl crc24_octet 0xB704CE bs AND 0xFFFFFF"

definition crc24_bytes :: "bytes \<Rightarrow> bytes" where
  "crc24_bytes bs = (let c = crc24 bs in [ucast (drop_bit 16 c), ucast (drop_bit 8 c), ucast c])"

text \<open>
  Modelled from the spec: the line structure of the armor text (section 6), written and
  read by the armor package outside the file. Every line ends with a line feed, and the
  radix-64 body is wrapped at a fixed width, here 64 characters.
\<close>

definition newline :: char where
  "newline = CHR 0x0A"

definition unlinesNL :: "string list \<Rightarrow> string" where
  "unlinesNL ls = concat (map (\<lambda>l. l @ [newline]) ls)"

fun splitAcc :: "string \<Rightarrow> string \<Rightarrow> string list" where
  "splitAcc acc [] = (if acc = [] then [] else [acc])"
| "splitAcc acc (c # cs) = (if c = newline then acc # splitAcc [] cs else splitAcc (acc @ [c]) cs)"

definition splitLines :: "string \<Rightarrow> string list" where
  "splitLines text = splitAcc [] text"

function wrapLines :: "string \<Rightarrow> string list" where
  "wrapLines s = (if s = [] then [] else take 64 s # wrapLines (drop 64 s))"
  by pat_completeness auto
termination
  by (relation "measure length") auto

declare wrapLines.simps [simp del]

text \<open>
  Modelled from the spec: \<open>ArmorCodec.Encode\<close> (section 4.2, wire format of section 6),
  outside the file as \<open>armor.Encode\<close>. A header line with the block type, no header
  fields, an empty line, the wrapped radix-64 body, the checksum line \<open>=\<close> with four
  radix-64 characters, the footer line, each line ended by a line feed.
\<close>

definition armorEncode :: "string \<Rightarrow> bytes \<Rightarrow> string" where
  "armorEncode blockType body =
     unlinesNL ([''-----BEGIN '' @ blockType @ ''-----'', []]
                @ wrapLines (b64enc body)
                @ [CHR ''='' # b64enc (crc24_bytes body), ''-----END '' @ blockType @ ''-----''])"

text \<open>
  Modelled from the spec: reading the header line \<open>-----BEGIN\<close>, block type, \<open>-----\<close>
  (section 6) back to its block type.
\<close>

definition stripType :: "string \<Rightarrow> string option" where
  "stripType line =
     (if 16 \<le> length line \<and> take 11 line = ''-----BEGIN ''
         \<and> drop (length line - 5) line = ''-----''
      then Some (take (length line - 16) (drop 11 line)) else None)"

text \<open>
  Modelled from the spec: \<open>ArmorCodec.Decode\<close> (section 4.2), outside the file as
  \<open>armor.Decode\<close>. It returns the block type and the body, and fails (\<open>None\<close>, the
  spec's \<open>ArmorFormatError\<close>) when the header or the footer is absent or they do not
  match, when the body is not radix-64, or when the checksum is not the one of the
  body. Header fields, the lines before the first empty line, are skipped.
\<close>

definition armorDecode :: "string \<Rightarrow> (string \<times> bytes) option" where
  "armorDecode text =
     (case splitLines text of
        [] \<Rightarrow> None
      | header # rest \<Rightarrow>
     (case stripType header of
        None \<Rightarrow> None
      | Some blockType \<Rightarrow>
     (case dropWhile (\<lambda>l. l \<noteq> []) rest of
        [] \<Rightarrow> None
      | blank # tail \<Rightarrow>
          if length tail < 2 then None
          else if last tail \<noteq> ''-----END '' @ blockType @ ''-----'' then None
          else (case last (butlast tail) of
                  [] \<Rightarrow> None
                | c # crcText \<Rightarrow>
                    if c \<noteq> CHR ''='' then None
                    else (case (b64dec (concat (butlast (butlast tail))), b64dec crcText) of
                            (Some body, Some crc) \<Rightarrow>
                              if crc = crc24_bytes body then Some (blockType, body) else None
                          | _ \<Rightarrow> None)))))"

subsection \<open>Packets and primitives\<close>

text \<open>
  Modelled from the spec: the binary packet stream of sections 4.3 and 4.4, an attached
  signature: the payload, followed by the signature packet with the signer's key ID, the
  identifier of the hash algorithm and the signature value. A stream may end without
  the signature packet.
\<close>

record SignaturePacket =
  sp_keyID :: string
  sp_hashAlgorithm :: nat
  sp_value :: bytes

record PacketStream =
  ps_payload :: bytes
  ps_signature :: "SignaturePacket option"

text \<open>
  Modelled from the spec: what the spec names and does not fix. The hash algorithm and
  its identifier, the signing algorithm of a key (signing may fail, section 4.3), the
  byte layout of the packet stream and the byte layout of the keys in a key ring.
\<close>

record primitives =
  hashAlgorithm :: nat
  digest :: "bytes \<Rightarrow> bytes"
  signDigest :: "bytes \<Rightarrow> bytes \<Rightarrow> bytes option"
  verifyDigest :: "bytes \<Rightarrow> bytes \<Rightarrow> bytes \<Rightarrow> bool"
  serializePackets :: "PacketStream \<Rightarrow> bytes"
  parsePackets :: "bytes \<Rightarrow> errorKind + PacketStream"
  parseKeys :: "bytes \<Rightarrow> Entity list option"

text \<open>
  Modelled from the spec: the key ID of a key (section 3), the upper-case hexadecimal
  notation of its fingerprint.
\<close>

definition keyID :: "Entity \<Rightarrow> string" where
  "keyID k = sprintf_X (Fingerprint (PrimaryKey k))"

subsection \<open>Reading\<close>

text \<open>
  Modelled from the spec: \<open>KeyRingLoader\<close> (section 4.1), outside the file as
  \<open>openpgp.ReadArmoredKeyRing\<close>. It fails with \<open>KeyParseError\<close> on armor that does not
  decode and on key packets that do not parse.
\<close>

definition KeyRingLoader :: "primitives \<Rightarrow> bytes \<Rightarrow> errorKind + Entity list" where
  "KeyRingLoader P armored =
     (case armorDecode (map charOfByte armored) of
        None \<Rightarrow> Inl KeyParseError
      | Some (blockType, body) \<Rightarrow>
          (case parseKeys P body of
             None \<Rightarrow> Inl KeyParseError
           | Some keyring \<Rightarrow> Inr keyring))"

text \<open>
  Modelled from the spec: the two readers the source passes on, values of the packages
  outside the file. The body of a decoded armor block is the binary body (section 4.2);
  the body of an opened message knows the packet stream and the key that matched, if
  any (section 4.4).
\<close>

datatype reader = ArmorBody bytes | MessageBody PacketStream "Entity option"

text \<open>
  Modelled from the spec: step 1 of \<open>Verify\<close> (section 4.4), outside the file as
  \<open>armor.Decode\<close>: decode the armor, \<open>ArmorFormatError\<close> on failure.
\<close>

definition spec_armor_Decode :: "bytes \<Rightarrow> errorKind + reader Block" where
  "spec_armor_Decode armored =
     (case armorDecode (map charOfByte armored) of
        None \<Rightarrow> Inl ArmorFormatError
      | Some (blockType, body) \<Rightarrow> Inr \<lparr>Type = blockType, Body = ArmorBody body\<rparr>)"

text \<open>
  Modelled from the spec: steps 2 and 3 of \<open>Verify\<close> (section 4.4), outside the file as
  \<open>openpgp.ReadMessage\<close>: parse the packet stream, then match the key ID of its
  signature packet against the key ring, \<open>KeyNotFoundError\<close> when no key matches. A
  stream without signature packet has no key ID to match and opens as it is.
\<close>

definition spec_ReadMessage ::
  "primitives \<Rightarrow> reader \<Rightarrow> Entity list \<Rightarrow> errorKind + (errorKind, reader, SignaturePacket) MessageDetails" where
  "spec_ReadMessage P r keyring =
     (case r of
        MessageBody stream matched \<Rightarrow> Inl IOError
      | ArmorBody body \<Rightarrow>
     (case parsePackets P body of
        Inl err \<Rightarrow> Inl err
      | Inr stream \<Rightarrow>
     (case ps_signature stream of
        None \<Rightarrow>
          Inr \<lparr>md_UnverifiedBody = MessageBody stream None,
               md_SignatureError = None, md_Signature = None\<rparr>
      | Some sp \<Rightarrow>
     (case find (\<lambda>k. keyID k = sp_keyID sp) keyring of
        None \<Rightarrow> Inl KeyNotFoundError
      | Some k \<Rightarrow>
          Inr \<lparr>md_UnverifiedBody = MessageBody stream (Some k),
               md_SignatureError = None, md_Signature = None\<rparr>))))"

text \<open>
  Modelled from the spec: steps 4 and 5 of \<open>Verify\<close> (section 4.4), outside the file as
  the read of \<open>UnverifiedBody\<close> to its end: the payload is handed out, and at the end of
  the stream the digest of the payload is computed again and the signature value is
  checked with the matched key, \<open>SignatureMismatchError\<close> when it does not hold. A
  stream that ends without signature packet leaves \<open>Signature\<close> empty.
\<close>

definition spec_ReadAll ::
  "primitives \<Rightarrow> (errorKind, reader, SignaturePacket) MessageDetails
   \<Rightarrow> (bytes \<times> errorKind option) \<times> (errorKind, reader, SignaturePacket) MessageDetails" where
  "spec_ReadAll P md =
     (case md_UnverifiedBody md of
        ArmorBody body \<Rightarrow> ((body, None), md)
      | MessageBody stream matched \<Rightarrow>
          (case (ps_signature stream, matched) of
             (Some sp, Some k) \<Rightarrow>
               ((ps_payload stream, None),
                md\<lparr>md_SignatureError :=
                     (if verifyDigest P (PublicComponent (PrimaryKey k))
                           (digest P (ps_payload stream)) (sp_value sp)
                      then None else Some SignatureMismatchError),
                   md_Signature := Some sp\<rparr>)
           | _ \<Rightarrow> ((ps_payload stream, None), md)))"

text \<open>
  Modelled from the spec: the value of the reading parameters, the four definitions
  above.
\<close>

definition specReader :: "primitives \<Rightarrow> (errorKind, reader, SignaturePacket) openpgp_read" where
  "specReader P =
     \<lparr>ReadArmoredKeyRing = KeyRingLoader P,
      armor_Decode = spec_armor_Decode,
      ReadMessage = spec_ReadMessage P,
      ReadAll = spec_ReadAll P\<rparr>"

subsection \<open>Reading in pieces\<close>










subsection \<open>Writing\<close>

text \<open>
  Modelled from the spec: the two writers, values of the packages outside the file. The
  armor writer holds the block type and the binary body written so far (section 4.2);
  the signature writer holds the armor writer under it, the key and the payload
  written so far (section 4.3).
\<close>

type_synonym armorWriter = "string \<times> bytes"
type_synonym signatureWriter = "armorWriter \<times> Entity \<times> bytes"

text \<open>
  Modelled from the spec: \<open>SignatureEngine\<close> (section 4.3), outside the file as
  \<open>openpgp.Sign\<close> and the writer it returns. \<open>SigningError\<close> when the key lacks signing
  capability; the packet stream is produced when the writer is closed, from the
  payload written until then, with the key ID, the pinned hash algorithm and the
  signature value over the digest of the payload, \<open>SigningError\<close> when the signing
  operation fails.
\<close>

definition spec_Sign :: "armorWriter \<Rightarrow> Entity \<Rightarrow> errorKind + signatureWriter" where
  "spec_Sign aw key =
     (if CanSign key \<and> PrivateKey key \<noteq> None then Inr (aw, key, []) else Inl SigningError)"

definition spec_Write :: "signatureWriter \<Rightarrow> bytes \<Rightarrow> (nat \<times> errorKind option) \<times> signatureWriter" where
  "spec_Write w payload =
     (case w of (aw, key, written) \<Rightarrow> ((length payload, None), (aw, key, written @ payload)))"

definition signedStream :: "primitives \<Rightarrow> Entity \<Rightarrow> bytes \<Rightarrow> bytes \<Rightarrow> PacketStream" where
  "signedStream P key payload v =
     \<lparr>ps_payload = payload,
      ps_signature = Some \<lparr>sp_keyID = keyID key, sp_hashAlgorithm = hashAlgorithm P,
                            sp_value = v\<rparr>\<rparr>"

definition spec_Close_signatureWriter ::
  "primitives \<Rightarrow> signatureWriter \<Rightarrow> errorKind option \<times> armorWriter" where
  "spec_Close_signatureWriter P w =
     (case w of (aw, key, written) \<Rightarrow>
        (case PrivateKey key of
           None \<Rightarrow> (Some SigningError, aw)
         | Some priv \<Rightarrow>
             (case signDigest P priv (digest P written) of
                None \<Rightarrow> (Some SigningError, aw)
              | Some v \<Rightarrow>
                  (None, (fst aw, snd aw @ serializePackets P (signedStream P key written v))))))"

text \<open>
  Modelled from the spec: the armor writer, outside the file as \<open>armor.Encode\<close> and the
  writer it returns: closing it leaves the armor text of what was written in the
  buffer (section 4.2).
\<close>

definition spec_Close_armorWriter :: "armorWriter \<Rightarrow> errorKind option \<times> bytes" where
  "spec_Close_armorWriter aw = (None, map byteOfChar (armorEncode (fst aw) (snd aw)))"

text \<open>
  Modelled from the spec: the value of the writing parameters. A new armor writer has
  its block type and nothing written.
\<close>

definition specWriter :: "primitives \<Rightarrow> (errorKind, armorWriter, signatureWriter) openpgp_write" where
  "specWriter P =
     \<lparr>armor_Encode = (\<lambda>blockType. Inr (blockType, [])),
      Sign = spec_Sign,
      Write = spec_Write,
      Close_signatureWriter = spec_Close_signatureWriter P,
      Close_armorWriter = spec_Close_armorWriter\<rparr>"

subsection \<open>Primitives to run the model on\<close>

text \<open>
  Values for the open parameters, simple enough to compute with; they are no
  cryptography. The digest is the payload itself, a signature value is the private
  component followed by the digest, and it verifies against a public component equal
  to the private one. A packet stream is laid out as the length of the payload in one
  byte, the payload and, when there is a signature packet, the byte 1, the hash
  algorithm, the length of the key ID and the key ID, each in one byte or as they are,
  and the signature value. The only key ring that parses is the one byte 7, which
  holds \<open>signingKey\<close> without its private component.
\<close>

definition toySerialize :: "PacketStream \<Rightarrow> bytes" where
  "toySerialize stream =
     word_of_nat (length (ps_payload stream)) # ps_payload stream
     @ (case ps_signature stream of
          None \<Rightarrow> []
        | Some sp \<Rightarrow>
            [1, word_of_nat (sp_hashAlgorithm sp), word_of_nat (length (sp_keyID sp))]
            @ map byteOfChar (sp_keyID sp) @ sp_value sp)"

definition toyParse :: "bytes \<Rightarrow> errorKind + PacketStream" where
  "toyParse bs =
     (case bs of
        [] \<Rightarrow> Inl IOError
      | n # rest \<Rightarrow>
          if length rest < unat n then Inl IOError
          else (case drop (unat n) rest of
                  [] \<Rightarrow> Inr \<lparr>ps_payload = take (unat n) rest, ps_signature = None\<rparr>
                | [t] \<Rightarrow> Inl IOError
                | [t, h] \<Rightarrow> Inl IOError
                | t # h # k # remaining \<Rightarrow>
                    if t \<noteq> 1 \<or> length remaining < unat k then Inl IOError
                    else Inr \<lparr>ps_payload = take (unat n) rest,
                              ps_signature = Some
                                \<lparr>sp_keyID = map charOfByte (take (unat k) remaining),
                                 sp_hashAlgorithm = unat h,
                                 sp_value = drop (unat k) remaining\<rparr>\<rparr>))"

definition toyPrimitives :: primitives where
  "toyPrimitives =
     \<lparr>hashAlgorithm = 8,
      digest = (\<lambda>payload. payload),
      signDigest = (\<lambda>priv d. Some (priv @ d)),
      verifyDigest = (\<lambda>pub d v. v = pub @ d),
      serializePackets = toySerialize,
      parsePackets = toyParse,
      parseKeys = (\<lambda>body. if body = [7] then Some [signingKey\<lparr>PrivateKey := None\<rparr>] else None)\<rparr>"

definition otherKey :: Entity where
  "otherKey = \<lparr>PrimaryKey = \<lparr>Fingerprint = [0x01, 0x02, 0x03, 0x04], PublicComponent = [9, 9]\<rparr>,
                PrivateKey = Some [9, 9], CanSign = True\<rparr>"

section \<open>Properties\<close>

subsection \<open>The formatting verbs\<close>

lemma hexValue_hexDigit: "n < 16 \<Longrightarrow> hexValue (hexDigit n) = n"
proof -
  assume "n < 16"
  then have "n \<in> {0, 1, 2, 3, 4, 5, 6, 7, 8, 9, 10, 11, 12, 13, 14, 15}"
    by simp arith
  then show ?thesis
    by (auto simp: hexValue_def hexDigit_def)
qed

lemma hexDigit_upper: "n < 16 \<Longrightarrow> hexDigit n \<in> upperHexChars"
proof -
  assume "n < 16"
  then have "n \<in> {0, 1, 2, 3, 4, 5, 6, 7, 8, 9, 10, 11, 12, 13, 14, 15}"
    by simp arith
  then show ?thesis
    by (auto simp: hexDigit_def upperHexChars_def)
qed

lemma parseHex_hexByte: "parseHex (hexByte b @ cs) = b # parseHex cs"
proof -
  have lt: "unat b div 16 < 16"
    using unsigned_less [of b, where ?'a = nat] by (simp add: less_mult_imp_div_less)
  have "16 * (unat b div 16) + unat b mod 16 = unat b"
    by simp
  then show ?thesis
    by (simp add: hexByte_def hexValue_hexDigit lt)
qed

lemma parseHex_sprintf_X: "parseHex (sprintf_X bs) = bs"
  by (induction bs) (simp_all add: sprintf_X_def parseHex_hexByte)

lemma length_sprintf_X: "length (sprintf_X bs) = 2 * length bs"
  by (induction bs) (simp_all add: sprintf_X_def hexByte_def)

lemma set_sprintf_X: "set (sprintf_X bs) \<subseteq> upperHexChars"
proof -
  have "set (hexByte b) \<subseteq> upperHexChars" for b
  proof -
    have "unat b div 16 < 16"
      using unsigned_less [of b, where ?'a = nat] by (simp add: less_mult_imp_div_less)
    then show ?thesis
      by (simp add: hexByte_def hexDigit_upper)
  qed
  then show ?thesis
    by (auto simp: sprintf_X_def)
qed

lemma decDigit_value: "n < 10 \<Longrightarrow> of_char (decDigit n) - 48 = n"
proof -
  assume "n < 10"
  then have "n \<in> {0, 1, 2, 3, 4, 5, 6, 7, 8, 9}"
    by simp arith
  then show ?thesis
    by (auto simp: decDigit_def)
qed

lemma parseDec_sprintf_d: "parseDec (sprintf_d n) = n"
proof (induction n rule: sprintf_d.induct)
  case (1 n)
  show ?case
  proof (cases "n < 10")
    case True
    then show ?thesis
      by (simp add: sprintf_d.simps [of n] parseDec_def decDigit_value)
  next
    case False
    with 1 have "parseDec (sprintf_d (n div 10)) = n div 10"
      by simp
    with False show ?thesis
      by (simp add: sprintf_d.simps [of n] parseDec_def decDigit_value)
  qed
qed

subsection \<open>NewPgpSigner\<close>

text \<open>
  Claim C4, as the code has it: when the key ring parses, \<open>NewPgpSigner\<close> fails with
  the error \<open>expected 1 key in keyring, got n\<close>, \<open>n\<close> the decimal count of the keys in
  the ring, whenever the ring does not hold exactly one key, whatever the keys can do;
  with exactly one key it succeeds, the signer holds that key and its \<open>publicKeyID\<close>
  is the upper-case hexadecimal notation of the fingerprint of the key's primary key.
\<close>

theorem NewPgpSigner_key_count:
  assumes "ReadArmoredKeyRing L privateKeyBytes = Inr keyring"
  shows "NewPgpSigner L privateKeyBytes =
           (if length keyring = 1
            then (Some \<lparr>privateKey = hd keyring,
                        publicKeyID = sprintf_X (Fingerprint (PrimaryKey (hd keyring)))\<rparr>, None)
            else (None, Some (Errorf (''expected 1 key in keyring, got '' @ sprintf_d (length keyring)))))
         \<and> parseDec (sprintf_d (length keyring)) = length keyring
         \<and> parseHex (sprintf_X (Fingerprint (PrimaryKey (hd keyring)))) = Fingerprint (PrimaryKey (hd keyring))
         \<and> set (sprintf_X (Fingerprint (PrimaryKey (hd keyring)))) \<subseteq> upperHexChars"
  using assms
  by (cases keyring) (simp_all add: NewPgpSigner_def parseDec_sprintf_d parseHex_sprintf_X set_sprintf_X)

theorem NewPgpSigner_key_count_witness:
  "ReadArmoredKeyRing (readerStub (Inr [signingKey]) None None) [] = Inr [signingKey]
   \<and> NewPgpSigner (readerStub (Inr [signingKey]) None None) [] =
       (Some \<lparr>privateKey = signingKey, publicKeyID = ''AABBCCDD''\<rparr>, None)
   \<and> NewPgpSigner (readerStub (Inr [signingKey, publicOnlyKey]) None None) [] =
       (None, Some (Errorf ''expected 1 key in keyring, got 2''))"
proof -
  have r1: "ReadArmoredKeyRing (readerStub (Inr [signingKey]) None None) [] = Inr [signingKey]"
    by (simp add: readerStub_def)
  have r2: "ReadArmoredKeyRing (readerStub (Inr [signingKey, publicOnlyKey]) None None) []
              = Inr [signingKey, publicOnlyKey]"
    by (simp add: readerStub_def)
  have x: "sprintf_X (Fingerprint (PrimaryKey signingKey)) = ''AABBCCDD''"
    by (simp add: signingKey_def sprintf_X_def hexByte_def hexDigit_def)
  have d: "sprintf_d (length [signingKey, publicOnlyKey]) = ''2''"
    by (simp add: sprintf_d.simps decDigit_def)
  show ?thesis
    using r1 NewPgpSigner_key_count [OF r1] NewPgpSigner_key_count [OF r2] x d by simp
qed

text \<open>
  Claim C4 as stated fails: a ring whose single key has no private component and cannot
  sign holds no signing-capable key, and \<open>NewPgpSigner\<close> succeeds on it. The function
  counts keys; it never looks at what a key can do.
\<close>

theorem NewPgpSigner_public_only_counterexample:
  "length (filter CanSign [publicOnlyKey]) \<noteq> 1
   \<and> NewPgpSigner (readerStub (Inr [publicOnlyKey]) None None) [] =
       (Some \<lparr>privateKey = publicOnlyKey, publicKeyID = ''AABBCCDD''\<rparr>, None)"
  by (simp add: NewPgpSigner_def readerStub_def publicOnlyKey_def sprintf_X_def hexByte_def hexDigit_def)

subsection \<open>CreateAttestation\<close>

lemma CreateAttestation_Sign_error:
  "armor_Encode L SignatureType = Inr armorWriter \<Longrightarrow> Sign L armorWriter (privateKey s) = Inl err \<Longrightarrow>
   CreateAttestation L s payload = (None, Some (Wrap err ''error signing payload''))"
  by (simp add: CreateAttestation_def)

text \<open>
  Once the payload has been written the function cannot fail any more: what the two
  \<open>Close\<close> calls return as errors has no part in the result.
\<close>

lemma CreateAttestation_after_Write:
  "armor_Encode L SignatureType = Inr armorWriter \<Longrightarrow>
   Sign L armorWriter (privateKey s) = Inr signatureWriter \<Longrightarrow>
   Write L signatureWriter payload = ((n, None), signatureWriter') \<Longrightarrow>
   CreateAttestation L s payload =
     (Some \<lparr>PublicKeyID = publicKeyID s,
            Signature = snd (Close_armorWriter L (snd (Close_signatureWriter L signatureWriter')))\<rparr>, None)"
  by (simp add: CreateAttestation_def)

text \<open>
  Claim C5 asks that \<open>CreateAttestation\<close> fail whenever the signing operation fails.
  The payload is signed when the signature writer is closed (so says the comment in the
  source), and the error of that \<open>Close\<close> is dropped: with a signature writer whose
  \<open>Close\<close> fails, \<open>CreateAttestation\<close> returns an attestation and a nil error.
\<close>

theorem CreateAttestation_drops_Close_error:
  "fst (Close_signatureWriter (writerStub (Some ''crypto/rsa: message too long for RSA public key size'')) helloWorld)
     = Some ''crypto/rsa: message too long for RSA public key size''
   \<and> CreateAttestation (writerStub (Some ''crypto/rsa: message too long for RSA public key size''))
        \<lparr>privateKey = signingKey, publicKeyID = ''AABBCCDD''\<rparr> helloWorld
      = (Some \<lparr>PublicKeyID = ''AABBCCDD'', Signature = helloWorld\<rparr>, None)"
  by (simp add: CreateAttestation_def writerStub_def signingKey_def)

subsection \<open>verifyPgp\<close>

lemma verifyPgp_success_iff:
  "verifyPgp L sg pk = (Some payload, None) \<longleftrightarrow>
     (\<exists>keyring blk md md' s.
        ReadArmoredKeyRing L pk = Inr keyring \<and> armor_Decode L sg = Inr blk \<and>
        ReadMessage L (Body blk) keyring = Inr md \<and> ReadAll L md = ((payload, None), md') \<and>
        md_SignatureError md' = None \<and> md_Signature md' = Some s)"
  by (auto simp: verifyPgp_def split: sum.splits prod.splits option.splits)

lemma verifyPgp_cases:
  "(\<exists>payload. verifyPgp L sg pk = (Some payload, None)) \<or> (\<exists>err. verifyPgp L sg pk = (None, Some err))"
  by (auto simp: verifyPgp_def split: sum.splits prod.splits option.splits)

text \<open>
  Claim C6: for every signature, every key and whatever the packages compute,
  \<open>verifyPgp\<close> returns either a payload with a nil error, and then the payload is the
  one read to the end of a message that opened, with no signature error and with a
  signature packet, or a nil payload with an error. No payload comes with an error.
\<close>

theorem verifyPgp_payload_or_error:
  "(\<exists>payload keyring blk md md' s.
      verifyPgp L sg pk = (Some payload, None) \<and>
      ReadArmoredKeyRing L pk = Inr keyring \<and> armor_Decode L sg = Inr blk \<and>
      ReadMessage L (Body blk) keyring = Inr md \<and> ReadAll L md = ((payload, None), md') \<and>
      md_SignatureError md' = None \<and> md_Signature md' = Some s)
   \<or> (\<exists>err. verifyPgp L sg pk = (None, Some err))"
proof (cases "\<exists>err. verifyPgp L sg pk = (None, Some err)")
  case True
  then show ?thesis by blast
next
  case False
  with verifyPgp_cases [of L sg pk] obtain payload where p: "verifyPgp L sg pk = (Some payload, None)"
    by blast
  with verifyPgp_success_iff [of L sg pk payload] show ?thesis
    by blast
qed

text \<open>
  Claim C7, as the code has it: when the key ring, the armor and the message have been
  read and the body has been read to its end without a read error, then, if no
  signature error has been recorded and no signature packet has been produced,
  \<open>verifyPgp\<close> returns no payload and the error \<open>failed to validate: signature
  missing\<close>; and if a signature error has been recorded, \<open>verifyPgp\<close> returns no payload
  and that error as \<open>failed to validate: signature error\<close>, whether or not a signature
  packet has been produced: the signature error is reported first.
\<close>

theorem verifyPgp_signature_missing:
  assumes "ReadArmoredKeyRing L pk = Inr keyring"
    and "armor_Decode L sg = Inr blk"
    and "ReadMessage L (Body blk) keyring = Inr md"
    and "ReadAll L md = ((payload, None), md')"
  shows "(md_SignatureError md' = None \<and> md_Signature md' = None
            \<longrightarrow> verifyPgp L sg pk = (None, Some (Errorf ''failed to validate: signature missing'')))
       \<and> (\<forall>serr. md_SignatureError md' = Some serr
            \<longrightarrow> verifyPgp L sg pk = (None, Some (Wrap serr ''failed to validate: signature error'')))"
  using assms by (simp add: verifyPgp_def)

theorem verifyPgp_signature_missing_witness:
  "verifyPgp (readerStub (Inr [signingKey]) None None) helloWorld []
     = (None, Some (Errorf ''failed to validate: signature missing''))
   \<and> verifyPgp (readerStub (Inr [signingKey]) (Some ''LiteralData not followed by signature'') None)
        helloWorld []
     = (None, Some (Wrap ''LiteralData not followed by signature''
                         ''failed to validate: signature error''))"
proof -
  let ?L = "readerStub (Inr [signingKey]) None None"
  let ?K = "readerStub (Inr [signingKey]) (Some ''LiteralData not followed by signature'') None"
  let ?md = "\<lparr>md_UnverifiedBody = helloWorld, md_SignatureError = None :: string option,
               md_Signature = None :: bytes option\<rparr>"
  let ?md' = "\<lparr>md_UnverifiedBody = helloWorld,
                md_SignatureError = Some ''LiteralData not followed by signature'',
                md_Signature = None :: bytes option\<rparr>"
  have 1: "ReadArmoredKeyRing ?L [] = Inr [signingKey]"
    by (simp add: readerStub_def)
  have 2: "armor_Decode ?L helloWorld = Inr \<lparr>Type = SignatureType, Body = helloWorld\<rparr>"
    by (simp add: readerStub_def)
  have 3: "ReadMessage ?L (Body \<lparr>Type = SignatureType, Body = helloWorld\<rparr>) [signingKey] = Inr ?md"
    by (simp add: readerStub_def)
  have 4: "ReadAll ?L ?md = ((helloWorld, None), ?md)"
    by (simp add: readerStub_def)
  have 5: "ReadArmoredKeyRing ?K [] = Inr [signingKey]"
    by (simp add: readerStub_def)
  have 6: "armor_Decode ?K helloWorld = Inr \<lparr>Type = SignatureType, Body = helloWorld\<rparr>"
    by (simp add: readerStub_def)
  have 7: "ReadMessage ?K (Body \<lparr>Type = SignatureType, Body = helloWorld\<rparr>) [signingKey] = Inr ?md"
    by (simp add: readerStub_def)
  have 8: "ReadAll ?K ?md = ((helloWorld, None), ?md')"
    by (simp add: readerStub_def)
  show ?thesis
    using verifyPgp_signature_missing [OF 1 2 3 4] verifyPgp_signature_missing [OF 5 6 7 8]
    by simp
qed

text \<open>
  Claim C7 as stated fails: \<open>SignatureError\<close> is looked at before \<open>Signature\<close>. When the
  body has been read to its end, no signature packet has been produced and the reader
  has recorded an error in \<open>SignatureError\<close> (here the end of the stream where the
  signature packet was due), the error returned is the signature error, not the
  missing signature.
\<close>

theorem verifyPgp_signature_error_first_counterexample:
  "snd (fst (ReadAll (readerStub (Inr [signingKey]) (Some ''EOF'') None)
        \<lparr>md_UnverifiedBody = helloWorld, md_SignatureError = None, md_Signature = None\<rparr>)) = None
   \<and> md_Signature (snd (ReadAll (readerStub (Inr [signingKey]) (Some ''EOF'') None)
        \<lparr>md_UnverifiedBody = helloWorld, md_SignatureError = None, md_Signature = None\<rparr>)) = None
   \<and> verifyPgp (readerStub (Inr [signingKey]) (Some ''EOF'') None) helloWorld []
       = (None, Some (Wrap ''EOF'' ''failed to validate: signature error''))
   \<and> verifyPgp (readerStub (Inr [signingKey]) (Some ''EOF'') None) helloWorld []
       \<noteq> (None, Some (Errorf ''failed to validate: signature missing''))"
  by (simp add: verifyPgp_def readerStub_def)

text \<open>
  Claim C10: \<open>verifyPgp\<close> takes the signature bytes of an attestation and the key
  bytes, never the \<open>PublicKeyID\<close>: changing the \<open>PublicKeyID\<close> an attestation claims
  changes nothing, and whenever the message in the signature bytes opens against the
  key ring, is read to its end and carries a signature with no signature error, the
  payload is returned, whichever key the attestation names.
\<close>

theorem verifyPgp_ignores_PublicKeyID:
  "verifyPgp L (Signature (a\<lparr>PublicKeyID := claimed\<rparr>)) pk = verifyPgp L (Signature a) pk
   \<and> (ReadArmoredKeyRing L pk = Inr keyring \<and> armor_Decode L (Signature a) = Inr blk \<and>
      ReadMessage L (Body blk) keyring = Inr md \<and> ReadAll L md = ((payload, None), md') \<and>
      md_SignatureError md' = None \<and> md_Signature md' = Some s
      \<longrightarrow> verifyPgp L (Signature (a\<lparr>PublicKeyID := claimed\<rparr>)) pk = (Some payload, None))"
  by (auto simp: verifyPgp_success_iff)

theorem verifyPgp_ignores_PublicKeyID_witness:
  "sprintf_X (Fingerprint (PrimaryKey signingKey)) \<noteq> ''00000000''
   \<and> verifyPgp (readerStub (Inr [signingKey]) None (Some [7]))
        (Signature \<lparr>PublicKeyID = ''00000000'', Signature = helloWorld\<rparr>) []
      = (Some helloWorld, None)"
proof -
  let ?L = "readerStub (Inr [signingKey]) None (Some [7])"
  let ?md = "\<lparr>md_UnverifiedBody = helloWorld, md_SignatureError = None :: string option,
               md_Signature = None :: bytes option\<rparr>"
  let ?md' = "\<lparr>md_UnverifiedBody = helloWorld, md_SignatureError = None :: string option,
               md_Signature = Some [7::byte]\<rparr>"
  let ?a = "\<lparr>PublicKeyID = ''AABBCCDD'', Signature = helloWorld\<rparr>"
  have h: "ReadArmoredKeyRing ?L [] = Inr [signingKey]
      \<and> armor_Decode ?L (Signature ?a) = Inr \<lparr>Type = SignatureType, Body = helloWorld\<rparr>
      \<and> ReadMessage ?L (Body \<lparr>Type = SignatureType, Body = helloWorld\<rparr>) [signingKey] = Inr ?md
      \<and> ReadAll ?L ?md = ((helloWorld, None), ?md')
      \<and> md_SignatureError ?md' = None \<and> md_Signature ?md' = Some [7]"
    by (simp add: readerStub_def)
  have x: "sprintf_X (Fingerprint (PrimaryKey signingKey)) = ''AABBCCDD''"
    by (simp add: signingKey_def sprintf_X_def hexByte_def hexDigit_def)
  from verifyPgp_ignores_PublicKeyID [where L = ?L and a = ?a and claimed = "''00000000''"
      and pk = "[]" and keyring = "[signingKey]"
      and blk = "\<lparr>Type = SignatureType, Body = helloWorld\<rparr>"
      and md = ?md and payload = helloWorld and md' = ?md' and s = "[7]"] h x
  show ?thesis by simp
qed

subsection \<open>The armor codec\<close>

lemma b64val_b64char: "n < 64 \<Longrightarrow> b64val (b64char n) = Some n"
  by (auto simp: b64val_def b64char_def Let_def)

lemma b64val_pad: "b64val CHR ''='' = None"
  by (simp add: b64val_def)

lemma b64char_not_pad: "n < 64 \<Longrightarrow> b64char n \<noteq> CHR ''=''"
  using b64val_b64char [of n] b64val_pad by auto

lemma char_of_65: "char_of (65::nat) = CHR ''A''"
  by code_simp

lemma group1_low_sextets: "((x::nat) * 65536) div 64 mod 64 = 0" "((x::nat) * 65536) mod 64 = 0"
proof -
  have e: "x * 65536 = x * 1024 * 64" by simp
  show "((x::nat) * 65536) div 64 mod 64 = 0"
    unfolding e by (simp only: nonzero_mult_div_cancel_right) simp
  show "((x::nat) * 65536) mod 64 = 0"
    unfolding e by (simp only: mod_mult_self2_is_0)
qed

lemma group2_low_sextet: "((x::nat) * 65536 + y * 256) mod 64 = 0"
proof -
  have e: "x * 65536 + y * 256 = (x * 1024 + y * 4) * 64" by simp
  show ?thesis
    unfolding e by (simp only: mod_mult_self2_is_0)
qed

lemma group2_mod_256: "((x::nat) * 65536 + y * 256) mod 256 = 0"
proof -
  have e: "x * 65536 + y * 256 = (x * 256 + y) * 256" by simp
  show ?thesis
    unfolding e by (simp only: mod_mult_self2_is_0)
qed

lemma group2_mid_byte: "y < 256 \<Longrightarrow> ((x::nat) * 65536 + y * 256) div 256 mod 256 = y"
proof -
  assume y: "y < 256"
  have e: "x * 65536 + y * 256 = (x * 256 + y) * 256" by simp
  have "(x * 65536 + y * 256) div 256 = x * 256 + y"
    unfolding e by simp
  then show ?thesis using y by simp
qed

lemma group3_div_256: "z < 256 \<Longrightarrow> ((x::nat) * 65536 + y * 256 + z) div 256 = x * 256 + y"
  by simp

lemma group3_mid_byte: "y < 256 \<Longrightarrow> z < 256 \<Longrightarrow> ((x::nat) * 65536 + y * 256 + z) div 256 mod 256 = y"
  by (simp add: group3_div_256)

lemma group3_low_byte: "z < 256 \<Longrightarrow> ((x::nat) * 65536 + y * 256 + z) mod 256 = z"
proof -
  assume z: "z < 256"
  have "(x * 65536 + y * 256 + z) = (x * 256 + y) * 256 + z"
    by simp
  then show ?thesis
    using z by (simp only: mod_mult_self3) simp
qed

lemma group3_high_byte: "y < 256 \<Longrightarrow> z < 256 \<Longrightarrow> ((x::nat) * 65536 + y * 256 + z) div 65536 = x"
  by simp

lemma group2_high_byte: "y < 256 \<Longrightarrow> ((x::nat) * 65536 + y * 256) div 65536 = x"
  by simp

lemma group3_bound: "x < 256 \<Longrightarrow> y < 256 \<Longrightarrow> z < 256 \<Longrightarrow> (x::nat) * 65536 + y * 256 + z < 16777216"
  by simp


lemma b64char_0: "b64char 0 = CHR ''A''"
  by (simp add: b64char_def char_of_65)

lemma sextets2: "n div 64 * 64 + n mod 64 = (n::nat)"
  by simp

lemma sextets4:
  "((n div 262144 * 64 + n div 4096 mod 64) * 64 + n div 64 mod 64) * 64 + n mod 64 = (n::nat)"
proof -
  have 1: "n div 4096 = n div 64 div 64"
    by (simp add: div_mult2_eq)
  have 2: "n div 262144 = n div 64 div 64 div 64"
    by (simp add: div_mult2_eq)
  show ?thesis
    unfolding 1 2 by (simp add: sextets2)
qed

lemma unquad_sextets:
  assumes "n < 16777216"
  shows "unquad (b64char (n div 262144)) (b64char (n div 4096 mod 64))
           (b64char (n div 64 mod 64)) (b64char (n mod 64)) = Some n"
proof -
  have p: "n div 262144 < 64"
    using assms by simp
  have q: "n div 4096 mod 64 < 64" and r: "n div 64 mod 64 < 64" and s: "n mod 64 < 64"
    by simp_all
  show ?thesis
    by (simp only: unquad.simps b64val_b64char [OF p] b64val_b64char [OF q]
        b64val_b64char [OF r] b64val_b64char [OF s] prod.case option.case sextets4)
qed

lemma unat_byte_less: "unat (a::byte) < 256"
  using unsigned_less [of a, where ?'a = nat] by simp



lemma b64dec_one_byte: "b64dec (b64enc [a]) = Some [a]"
proof -
  define n where "n = unat a * 65536"
  have n: "n < 16777216" "n mod 65536 = 0" "n div 65536 = unat a"
    using unat_byte_less [of a] by (simp_all add: n_def)
  have z: "n div 64 mod 64 = 0" "n mod 64 = 0"
    unfolding n_def by (rule group1_low_sextets)+
  have "unquad (b64char (n div 262144)) (b64char (n div 4096 mod 64)) CHR ''A'' CHR ''A'' = Some n"
    using unquad_sextets [OF n(1)] by (simp only: z b64char_0)
  then show ?thesis
    using n by (simp add: quad_def n_def [symmetric] del: unquad.simps)
qed

lemma b64dec_two_bytes: "b64dec (b64enc [a, b]) = Some [a, b]"
proof -
  define n where "n = unat a * 65536 + unat b * 256"
  have lt: "unat a < 256" "unat b < 256"
    by (rule unat_byte_less)+
  have n1: "n < 16777216"
    using lt by (simp add: n_def)
  have n2: "n mod 256 = 0"
    unfolding n_def by (rule group2_mod_256)
  have n3: "n div 65536 = unat a"
    unfolding n_def using lt by (simp add: group2_high_byte)
  have n4: "n div 256 mod 256 = unat b"
    unfolding n_def using lt by (simp add: group2_mid_byte)
  have z: "n mod 64 = 0"
    unfolding n_def by (rule group2_low_sextet)
  have ne: "b64char (n div 64 mod 64) \<noteq> CHR ''=''"
    by (rule b64char_not_pad) simp
  have "unquad (b64char (n div 262144)) (b64char (n div 4096 mod 64))
          (b64char (n div 64 mod 64)) CHR ''A'' = Some n"
    using unquad_sextets [OF n1] by (simp only: z b64char_0)
  then show ?thesis
    using n2 n3 n4 ne by (simp add: quad_def n_def [symmetric] del: unquad.simps)
qed

lemma b64dec_three_bytes:
  assumes "b64dec (b64enc rest) = Some rest"
  shows "b64dec (b64enc (a # b # c # rest)) = Some (a # b # c # rest)"
proof -
  define n where "n = unat a * 65536 + unat b * 256 + unat c"
  have lt: "unat a < 256" "unat b < 256" "unat c < 256"
    by (rule unat_byte_less)+
  have n1: "n < 16777216"
    unfolding n_def using lt by (rule group3_bound)
  have n2: "n div 65536 = unat a"
    unfolding n_def using lt by (simp add: group3_high_byte)
  have n3: "n div 256 mod 256 = unat b"
    unfolding n_def using lt by (simp add: group3_mid_byte)
  have n4: "n mod 256 = unat c"
    unfolding n_def using lt by (simp add: group3_low_byte)
  have ne: "b64char (n div 64 mod 64) \<noteq> CHR ''=''" "b64char (n mod 64) \<noteq> CHR ''=''"
    by (rule b64char_not_pad, simp)+
  show ?thesis
    using n2 n3 n4 ne assms unquad_sextets [OF n1]
    by (simp add: quad_def n_def [symmetric] del: unquad.simps)
qed

lemma b64dec_b64enc: "b64dec (b64enc bs) = Some bs"
proof (induction bs rule: b64enc.induct)
  case 1
  show ?case by simp
next
  case (2 a)
  show ?case by (rule b64dec_one_byte)
next
  case (3 a b)
  show ?case by (rule b64dec_two_bytes)
next
  case (4 a b c rest)
  then show ?case by (rule b64dec_three_bytes)
qed


lemma b64val_newline: "b64val newline = None"
  by (simp add: b64val_def newline_def)

lemma b64char_not_newline: "b64char n \<noteq> newline"
proof (cases "n < 64")
  case True
  then show ?thesis
    using b64val_b64char [of n] b64val_newline by auto
next
  case False
  then show ?thesis
    by (simp add: b64char_def newline_def)
qed

lemma newline_not_in_quad: "newline \<notin> set (quad n)"
  by (simp add: quad_def b64char_not_newline [symmetric])

lemma newline_not_in_take_quad: "newline \<notin> set (take k (quad n))"
  using newline_not_in_quad [of n] by (auto dest: in_set_takeD)

lemma newline_not_in_b64enc: "newline \<notin> set (b64enc bs)"
  by (induction bs rule: b64enc.induct)
     (simp_all add: newline_not_in_quad newline_not_in_take_quad, simp_all add: newline_def)

lemma splitAcc_line:
  "newline \<notin> set l \<Longrightarrow> splitAcc acc (l @ newline # rest) = (acc @ l) # splitAcc [] rest"
  by (induction l arbitrary: acc) auto

lemma splitLines_unlinesNL:
  "\<forall>l \<in> set ls. newline \<notin> set l \<Longrightarrow> splitLines (unlinesNL ls) = ls"
proof (induction ls)
  case Nil
  show ?case by (simp add: splitLines_def unlinesNL_def)
next
  case (Cons l ls)
  then have "splitAcc [] (l @ newline # unlinesNL ls) = l # splitAcc [] (unlinesNL ls)"
    using splitAcc_line [of l "[]" "unlinesNL ls"] by simp
  with Cons show ?case
    by (simp add: splitLines_def unlinesNL_def)
qed

lemma wrapLines_Nil: "wrapLines [] = []"
  by (simp add: wrapLines.simps [of "[]"])

lemma concat_wrapLines: "concat (wrapLines s) = s"
proof (induction s rule: wrapLines.induct)
  case (1 s)
  show ?case
  proof (cases "s = []")
    case True
    then show ?thesis by (simp add: wrapLines_Nil)
  next
    case False
    with 1 show ?thesis by (simp add: wrapLines.simps [of s])
  qed
qed

lemma set_wrapLines: "l \<in> set (wrapLines s) \<Longrightarrow> set l \<subseteq> set s"
proof (induction s rule: wrapLines.induct)
  case (1 s)
  show ?case
  proof (cases "s = []")
    case True
    with 1(2) show ?thesis by (simp add: wrapLines_Nil)
  next
    case False
    with 1(2) have "l = take 64 s \<or> l \<in> set (wrapLines (drop 64 s))"
      by (simp add: wrapLines.simps [of s])
    then show ?thesis
    proof
      assume "l = take 64 s"
      then show ?thesis by (auto dest: in_set_takeD)
    next
      assume "l \<in> set (wrapLines (drop 64 s))"
      with 1(1) False have "set l \<subseteq> set (drop 64 s)" by simp
      then show ?thesis by (auto dest: in_set_dropD)
    qed
  qed
qed

lemma stripType_header: "stripType (''-----BEGIN '' @ t @ ''-----'') = Some t"
  by (simp add: stripType_def)

lemma armorDecode_armorEncode:
  assumes "newline \<notin> set t"
  shows "armorDecode (armorEncode t body) = Some (t, body)"
proof -
  let ?hdr = "''-----BEGIN '' @ t @ ''-----''"
  let ?ftr = "''-----END '' @ t @ ''-----''"
  let ?crc = "CHR ''='' # b64enc (crc24_bytes body)"
  let ?bodyLines = "wrapLines (b64enc body)"
  let ?ls = "[?hdr, []] @ ?bodyLines @ [?crc, ?ftr]"
  have nl: "\<forall>l \<in> set ?ls. newline \<notin> set l"
  proof
    fix l assume "l \<in> set ?ls"
    then consider "l = ?hdr" | "l = []" | "l \<in> set ?bodyLines" | "l = ?crc" | "l = ?ftr"
      by auto
    then show "newline \<notin> set l"
    proof cases
      case 1 with assms show ?thesis by (simp add: newline_def)
    next
      case 2 then show ?thesis by simp
    next
      case 3
      then have "set l \<subseteq> set (b64enc body)" by (rule set_wrapLines)
      with newline_not_in_b64enc [of body] show ?thesis by auto
    next
      case 4
      with newline_not_in_b64enc [of "crc24_bytes body"] show ?thesis by (simp add: newline_def)
    next
      case 5 with assms show ?thesis by (simp add: newline_def)
    qed
  qed
  have split: "splitLines (armorEncode t body) = ?hdr # [] # (?bodyLines @ [?crc, ?ftr])"
    unfolding armorEncode_def using splitLines_unlinesNL [OF nl] by simp
  have tail: "length (?bodyLines @ [?crc, ?ftr]) \<ge> 2"
    "last (?bodyLines @ [?crc, ?ftr]) = ?ftr"
    "butlast (?bodyLines @ [?crc, ?ftr]) = ?bodyLines @ [?crc]"
    by (simp_all add: butlast_append)
  show ?thesis
    unfolding armorDecode_def split
    by (simp add: stripType_header tail concat_wrapLines b64dec_b64enc
        del: append.simps butlast.simps last.simps)
qed

subsection \<open>Signing and verifying with the packages after the spec\<close>

lemma charOfByte_byteOfChar: "charOfByte (byteOfChar c) = c"
  by (simp add: charOfByte_def byteOfChar_def unat_of_nat)

lemma map_charOfByte_byteOfChar: "map charOfByte (map byteOfChar s) = s"
  by (induction s) (simp_all add: charOfByte_byteOfChar)

lemma armorDecode_bytes:
  "newline \<notin> set t \<Longrightarrow>
   armorDecode (map charOfByte (map byteOfChar (armorEncode t body))) = Some (t, body)"
  by (simp add: map_charOfByte_byteOfChar armorDecode_armorEncode del: map_map)

lemma newline_not_in_SignatureType: "newline \<notin> set SignatureType"
  by (simp add: SignatureType_def newline_def)

lemma spec_armor_Decode_armorEncode:
  "newline \<notin> set t \<Longrightarrow>
   spec_armor_Decode (map byteOfChar (armorEncode t body)) = Inr \<lparr>Type = t, Body = ArmorBody body\<rparr>"
  by (simp add: spec_armor_Decode_def armorDecode_bytes del: map_map)

lemma keyID_inject:
  assumes "keyID k = keyID k'"
  shows "Fingerprint (PrimaryKey k) = Fingerprint (PrimaryKey k')"
proof -
  from assms have "parseHex (sprintf_X (Fingerprint (PrimaryKey k)))
      = parseHex (sprintf_X (Fingerprint (PrimaryKey k')))"
    by (simp only: keyID_def)
  then show ?thesis
    by (simp only: parseHex_sprintf_X)
qed

text \<open>What a signer with a working key writes.\<close>

lemma CreateAttestation_spec:
  assumes "PrivateKey (privateKey s) = Some priv" and "CanSign (privateKey s)"
    and "signDigest P priv (digest P payload) = Some v"
  shows "CreateAttestation (specWriter P) s payload =
           (Some \<lparr>PublicKeyID = publicKeyID s,
                  Signature = map byteOfChar (armorEncode SignatureType
                    (serializePackets P (signedStream P (privateKey s) payload v)))\<rparr>, None)"
  using assms
  by (simp add: CreateAttestation_def specWriter_def spec_Sign_def spec_Write_def
      spec_Close_signatureWriter_def spec_Close_armorWriter_def)

text \<open>What the reader makes of that text, up to the match of the key.\<close>

lemma spec_ReadMessage_signed:
  assumes "parsePackets P body = Inr (signedStream P key payload v)"
  shows "spec_ReadMessage P (ArmorBody body) keyring =
           (case find (\<lambda>k. keyID k = keyID key) keyring of
              None \<Rightarrow> Inl KeyNotFoundError
            | Some k \<Rightarrow>
                Inr \<lparr>md_UnverifiedBody = MessageBody (signedStream P key payload v) (Some k),
                     md_SignatureError = None, md_Signature = None\<rparr>)"
  using assms by (simp add: spec_ReadMessage_def signedStream_def split: option.split)

text \<open>
  Claim C1, on the packages after the spec: for every payload and every signer whose
  key has a private component, can sign, and whose signing operation yields a value
  that verifies against the public component of the key of the same key ID in the key
  ring read from the public key bytes, and when the packet layout reads back what it
  writes, \<open>CreateAttestation\<close> returns an attestation with a nil error and \<open>verifyPgp\<close>
  on its signature returns exactly the payload with a nil error.
\<close>

theorem sign_then_verify_round_trip:
  assumes "PrivateKey (privateKey s) = Some priv" and "CanSign (privateKey s)"
    and "signDigest P priv (digest P payload) = Some v"
    and "parsePackets P (serializePackets P (signedStream P (privateKey s) payload v))
           = Inr (signedStream P (privateKey s) payload v)"
    and "ReadArmoredKeyRing (specReader P) publicKey = Inr keyring"
    and "find (\<lambda>k. keyID k = keyID (privateKey s)) keyring = Some k"
    and "verifyDigest P (PublicComponent (PrimaryKey k)) (digest P payload) v"
  shows "\<exists>att. CreateAttestation (specWriter P) s payload = (Some att, None)
               \<and> verifyPgp (specReader P) (Signature att) publicKey = (Some payload, None)"
proof -
  let ?stream = "signedStream P (privateKey s) payload v"
  let ?text = "map byteOfChar (armorEncode SignatureType (serializePackets P ?stream))"
  have created: "CreateAttestation (specWriter P) s payload =
      (Some \<lparr>PublicKeyID = publicKeyID s, Signature = ?text\<rparr>, None)"
    using assms(1-3) by (rule CreateAttestation_spec)
  have decoded: "armor_Decode (specReader P) ?text
      = Inr \<lparr>Type = SignatureType, Body = ArmorBody (serializePackets P ?stream)\<rparr>"
    by (simp add: specReader_def spec_armor_Decode_armorEncode newline_not_in_SignatureType)
  have opened: "ReadMessage (specReader P) (ArmorBody (serializePackets P ?stream)) keyring
      = Inr \<lparr>md_UnverifiedBody = MessageBody ?stream (Some k),
             md_SignatureError = None, md_Signature = None\<rparr>"
    using spec_ReadMessage_signed [OF assms(4), of keyring] assms(6)
    by (simp add: specReader_def)
  have "verifyPgp (specReader P) ?text publicKey = (Some payload, None)"
    using assms(5) assms(7) decoded opened
    by (simp add: verifyPgp_def) (simp add: specReader_def spec_ReadAll_def signedStream_def)
  with created show ?thesis by simp
qed

lemma toy_codec:
  "parsePackets toyPrimitives (serializePackets toyPrimitives
      (signedStream toyPrimitives signingKey helloWorld ([1, 2, 3] @ helloWorld)))
   = Inr (signedStream toyPrimitives signingKey helloWorld ([1, 2, 3] @ helloWorld))"
  by (simp add: toyPrimitives_def toySerialize_def toyParse_def signedStream_def keyID_def
      signingKey_def helloWorld_def sprintf_X_def hexByte_def hexDigit_def
      charOfByte_byteOfChar)

lemma toy_keyring:
  "ReadArmoredKeyRing (specReader toyPrimitives) (map byteOfChar (armorEncode ''PGP PUBLIC KEY BLOCK'' [7]))
   = Inr [signingKey\<lparr>PrivateKey := None\<rparr>]"
proof -
  have "newline \<notin> set ''PGP PUBLIC KEY BLOCK''"
    by (simp add: newline_def)
  then have "armorDecode (map charOfByte (map byteOfChar (armorEncode ''PGP PUBLIC KEY BLOCK'' [7])))
      = Some (''PGP PUBLIC KEY BLOCK'', [7])"
    by (rule armorDecode_bytes)
  then show ?thesis
    by (simp add: specReader_def KeyRingLoader_def toyPrimitives_def del: map_map)
qed

theorem sign_then_verify_round_trip_witness:
  "verifyPgp (specReader toyPrimitives)
     (Signature (the (fst (CreateAttestation (specWriter toyPrimitives)
        \<lparr>privateKey = signingKey, publicKeyID = ''AABBCCDD''\<rparr> helloWorld))))
     (map byteOfChar (armorEncode ''PGP PUBLIC KEY BLOCK'' [7]))
   = (Some helloWorld, None)"
proof -
  let ?s = "\<lparr>privateKey = signingKey, publicKeyID = ''AABBCCDD''\<rparr>"
  have 1: "PrivateKey (privateKey ?s) = Some [1, 2, 3]" and 2: "CanSign (privateKey ?s)"
    by (simp_all add: signingKey_def)
  have 3: "signDigest toyPrimitives [1, 2, 3] (digest toyPrimitives helloWorld)
             = Some ([1, 2, 3] @ helloWorld)"
    by (simp add: toyPrimitives_def)
  have 4: "parsePackets toyPrimitives (serializePackets toyPrimitives
             (signedStream toyPrimitives (privateKey ?s) helloWorld ([1, 2, 3] @ helloWorld)))
           = Inr (signedStream toyPrimitives (privateKey ?s) helloWorld ([1, 2, 3] @ helloWorld))"
    using toy_codec by simp
  have 6: "find (\<lambda>k. keyID k = keyID (privateKey ?s)) [signingKey\<lparr>PrivateKey := None\<rparr>]
             = Some (signingKey\<lparr>PrivateKey := None\<rparr>)"
    by (simp add: keyID_def)
  have 7: "verifyDigest toyPrimitives (PublicComponent (PrimaryKey (signingKey\<lparr>PrivateKey := None\<rparr>)))
             (digest toyPrimitives helloWorld) ([1, 2, 3] @ helloWorld)"
    by (simp add: toyPrimitives_def signingKey_def)
  from sign_then_verify_round_trip [OF 1 2 3 4 toy_keyring 6 7]
  obtain att where "CreateAttestation (specWriter toyPrimitives) ?s helloWorld = (Some att, None)"
    and "verifyPgp (specReader toyPrimitives) (Signature att)
           (map byteOfChar (armorEncode ''PGP PUBLIC KEY BLOCK'' [7])) = (Some helloWorld, None)"
    by blast
  then show ?thesis by simp
qed

text \<open>
  Claim C3, on the packages after the spec: for every attestation a signer with a
  working key has created, and every key ring read from the public key bytes that
  holds no key with the fingerprint of the signer's key, \<open>verifyPgp\<close> returns no
  payload and the key-not-found error of the message reader.
\<close>

theorem verify_without_signer_key:
  assumes "PrivateKey (privateKey s) = Some priv" and "CanSign (privateKey s)"
    and "signDigest P priv (digest P payload) = Some v"
    and "parsePackets P (serializePackets P (signedStream P (privateKey s) payload v))
           = Inr (signedStream P (privateKey s) payload v)"
    and "CreateAttestation (specWriter P) s payload = (Some att, None)"
    and "ReadArmoredKeyRing (specReader P) publicKey = Inr keyring"
    and "\<forall>k \<in> set keyring. Fingerprint (PrimaryKey k) \<noteq> Fingerprint (PrimaryKey (privateKey s))"
  shows "verifyPgp (specReader P) (Signature att) publicKey
           = (None, Some (Wrap KeyNotFoundError ''error reading armor signature''))"
proof -
  let ?stream = "signedStream P (privateKey s) payload v"
  let ?text = "map byteOfChar (armorEncode SignatureType (serializePackets P ?stream))"
  have "CreateAttestation (specWriter P) s payload =
      (Some \<lparr>PublicKeyID = publicKeyID s, Signature = ?text\<rparr>, None)"
    using assms(1-3) by (rule CreateAttestation_spec)
  with assms(5) have sig: "Signature att = ?text"
    by auto
  have decoded: "armor_Decode (specReader P) ?text
      = Inr \<lparr>Type = SignatureType, Body = ArmorBody (serializePackets P ?stream)\<rparr>"
    by (simp add: specReader_def spec_armor_Decode_armorEncode newline_not_in_SignatureType)
  have "find (\<lambda>k. keyID k = keyID (privateKey s)) keyring = None"
  proof -
    have "\<not> (\<exists>k. k \<in> set keyring \<and> keyID k = keyID (privateKey s))"
    proof
      assume "\<exists>k. k \<in> set keyring \<and> keyID k = keyID (privateKey s)"
      then obtain k where k: "k \<in> set keyring" "keyID k = keyID (privateKey s)"
        by blast
      from keyID_inject [OF k(2)] assms(7) k(1) show False
        by blast
    qed
    then show ?thesis
      by (simp add: find_None_iff)
  qed
  then have "ReadMessage (specReader P) (ArmorBody (serializePackets P ?stream)) keyring
      = Inl KeyNotFoundError"
    using spec_ReadMessage_signed [OF assms(4), of keyring] by (simp add: specReader_def)
  then show ?thesis
    using assms(6) decoded by (simp add: verifyPgp_def sig)
qed

lemma toy_codec_other:
  "parsePackets toyPrimitives (serializePackets toyPrimitives
      (signedStream toyPrimitives otherKey helloWorld ([9, 9] @ helloWorld)))
   = Inr (signedStream toyPrimitives otherKey helloWorld ([9, 9] @ helloWorld))"
  by (simp add: toyPrimitives_def toySerialize_def toyParse_def signedStream_def keyID_def
      otherKey_def helloWorld_def sprintf_X_def hexByte_def hexDigit_def
      charOfByte_byteOfChar)

theorem verify_without_signer_key_witness:
  "verifyPgp (specReader toyPrimitives)
     (Signature (the (fst (CreateAttestation (specWriter toyPrimitives)
        \<lparr>privateKey = otherKey, publicKeyID = ''01020304''\<rparr> helloWorld))))
     (map byteOfChar (armorEncode ''PGP PUBLIC KEY BLOCK'' [7]))
   = (None, Some (Wrap KeyNotFoundError ''error reading armor signature''))"
proof -
  let ?s = "\<lparr>privateKey = otherKey, publicKeyID = ''01020304''\<rparr>"
  have 1: "PrivateKey (privateKey ?s) = Some [9, 9]" and 2: "CanSign (privateKey ?s)"
    by (simp_all add: otherKey_def)
  have 3: "signDigest toyPrimitives [9, 9] (digest toyPrimitives helloWorld)
             = Some ([9, 9] @ helloWorld)"
    by (simp add: toyPrimitives_def)
  have 4: "parsePackets toyPrimitives (serializePackets toyPrimitives
             (signedStream toyPrimitives (privateKey ?s) helloWorld ([9, 9] @ helloWorld)))
           = Inr (signedStream toyPrimitives (privateKey ?s) helloWorld ([9, 9] @ helloWorld))"
    using toy_codec_other by simp
  obtain att where 5: "CreateAttestation (specWriter toyPrimitives) ?s helloWorld = (Some att, None)"
    using CreateAttestation_spec [OF 1 2 3] by simp
  have 7: "\<forall>k \<in> set [signingKey\<lparr>PrivateKey := None\<rparr>].
             Fingerprint (PrimaryKey k) \<noteq> Fingerprint (PrimaryKey (privateKey ?s))"
    by (simp add: signingKey_def otherKey_def)
  from verify_without_signer_key [OF 1 2 3 4 5 toy_keyring 7] 5
  show ?thesis by simp
qed

subsection \<open>Reading in pieces\<close>











end
